theory Spec2Isabelle
  imports Main
begin

section \<open>Errors and the string functions of Go's library\<close>

text \<open>
  A Go \<^verbatim>\<open>error\<close> is either made by \<^verbatim>\<open>errors.New(msg)\<close> or by
  \<^verbatim>\<open>errorskit.Wrap(err, msg)\<close>, which puts a message around another error.
  The nil error is \<open>None\<close> of \<open>error option\<close>.
\<close>

datatype error = ErrorNew string | ErrorWrap error string

definition ErrLeaderNotFound :: string where
  "ErrLeaderNotFound = ''couldn't find a leader''"

text \<open>
  \<^verbatim>\<open>strings.ReplaceAll(s, old, new)\<close> for an \<^verbatim>\<open>old\<close> of one byte: every
  occurrence of that byte is replaced by \<^verbatim>\<open>new\<close>.
\<close>

fun ReplaceAll :: "string \<Rightarrow> char \<Rightarrow> string \<Rightarrow> string" where
  "ReplaceAll [] old new = []"
| "ReplaceAll (c # s) old new = (if c = old then new else [c]) @ ReplaceAll s old new"

text \<open>\<^verbatim>\<open>strings.HasPrefix\<close> and \<^verbatim>\<open>strings.Contains\<close>, on bytes.\<close>

fun HasPrefix :: "string \<Rightarrow> string \<Rightarrow> bool" where
  "HasPrefix s [] = True"
| "HasPrefix [] (p # ps) = False"
| "HasPrefix (c # s) (p # ps) = (c = p \<and> HasPrefix s ps)"

fun Contains :: "string \<Rightarrow> string \<Rightarrow> bool" where
  "Contains [] substr = (substr = [])"
| "Contains (c # s) substr = (HasPrefix (c # s) substr \<or> Contains s substr)"

section \<open>The world around a node, and the effects a node has on it\<close>

text \<open>
  \<^verbatim>\<open>raft.Server\<close>: the source sets \<^verbatim>\<open>ID\<close> and \<^verbatim>\<open>Address\<close> and leaves
  \<^verbatim>\<open>Suffrage\<close> at its zero value, which is \<^verbatim>\<open>Voter\<close>.
\<close>

datatype ServerSuffrage = Voter | Nonvoter | Staging

record Server =
  Suffrage :: ServerSuffrage
  ID :: string
  Address :: string

text \<open>
  What the code calls and does not define: the mDNS library, the consensus engine, the
  cluster RPC client and the address functions of package \<^verbatim>\<open>config\<close>. They are the
  fields of a \<open>world\<close>:
  \<^item> \<open>mdnsQuery n\<close> is the outcome of the \<open>n\<close>-th call of \<^verbatim>\<open>mdns.Query\<close>: its error,
    or the \<^verbatim>\<open>Host\<close> of every entry it delivered;
  \<^item> \<open>rangeRank\<close> fixes the order in which \<^verbatim>\<open>range\<close> visits the keys of a Go map,
    which the language leaves open: the keys are visited by increasing rank (every order
    of a set of keys is the one of some rank);
  \<^item> \<open>IsLeader addr\<close> is the answer of \<^verbatim>\<open>cluster.IsLeader(addr)\<close>: an error when
    the node cannot be contacted, or whether it is the leader;
  \<^item> \<open>ConsensusJoin id consensusAddr leaderAddr\<close> is the error of
    \<^verbatim>\<open>cluster.ConsensusJoin\<close>, if any;
  \<^item> \<open>MakeGrpcAddress\<close> and \<open>MakeConsensusAddr\<close> are the functions of
    \<^verbatim>\<open>nubedb/internal/config\<close>;
  \<^item> \<open>GetConfiguration\<close> is the list of servers of
    \<^verbatim>\<open>n.Consensus.GetConfiguration().Configuration()\<close>;
  \<^item> \<open>BootstrapCluster servers\<close> is the message of the error of the future that
    \<^verbatim>\<open>n.Consensus.BootstrapCluster\<close> returns, if any (the code reads nothing else
    of that error).
\<close>

record world =
  mdnsQuery :: "nat \<Rightarrow> error + string list"
  rangeRank :: "string \<Rightarrow> nat"
  IsLeader :: "string \<Rightarrow> error + bool"
  ConsensusJoin :: "string \<Rightarrow> string \<Rightarrow> string \<Rightarrow> error option"
  MakeGrpcAddress :: "string \<Rightarrow> string"
  MakeConsensusAddr :: "string \<Rightarrow> string"
  GetConfiguration :: "Server list"
  BootstrapCluster :: "Server list \<Rightarrow> string option"

text \<open>
  The effects of the code, in the order they happen: how many mDNS queries were sent,
  the errors written to the log, the addresses asked \<^verbatim>\<open>IsLeader\<close>, the arguments of
  every \<^verbatim>\<open>ConsensusJoin\<close> and of every \<^verbatim>\<open>BootstrapCluster\<close>.
\<close>

record effects =
  queries :: nat
  logged :: "error list"
  isLeaderCalls :: "string list"
  joinCalls :: "(string \<times> string \<times> string) list"
  bootstrapCalls :: "Server list list"

section \<open>Package discover\<close>

text \<open>
  \<^verbatim>\<open>query\<close>: one mDNS query. An error of the library is wrapped; otherwise the hosts of
  the entries are returned.
\<close>

definition query :: "world \<Rightarrow> effects \<Rightarrow> (error + string list) \<times> effects" where
  "query w s =
     (case mdnsQuery w (queries s) of
        Inl err \<Rightarrow> (Inl (ErrorWrap err ''discover search''), s\<lparr>queries := Suc (queries s)\<rparr>)
      | Inr hosts \<Rightarrow> (Inr hosts, s\<lparr>queries := Suc (queries s)\<rparr>))"

text \<open>
  The map \<^verbatim>\<open>hosts\<close> of \<^verbatim>\<open>SearchNodes\<close> only ever maps a key to \<^verbatim>\<open>true\<close>, so it is
  its set of keys, kept as a list without duplicates. \<open>addHosts\<close> is the inner loop
  over one query's hosts.
\<close>

fun addHosts :: "string list \<Rightarrow> string list \<Rightarrow> string list" where
  "addHosts hosts [] = hosts"
| "addHosts hosts (host # hostsQuery) =
     addHosts (List.insert (ReplaceAll host (CHR ''.'') '''') hosts) hostsQuery"

text \<open>
  The outer loop of \<^verbatim>\<open>SearchNodes\<close>, with the number of attempts left. A failed query
  is logged, remembered as \<^verbatim>\<open>lastError\<close>, and the loop goes on. The pause of 100 ms
  after a query that succeeded changes no value and is left out.
\<close>

fun searchLoop ::
  "world \<Rightarrow> nat \<Rightarrow> string list \<Rightarrow> error option \<Rightarrow> effects \<Rightarrow>
     (string list \<times> error option) \<times> effects" where
  "searchLoop w 0 hosts lastError s = ((hosts, lastError), s)"
| "searchLoop w (Suc n) hosts lastError s =
     (case query w s of
        (Inl err, s') \<Rightarrow> searchLoop w n hosts (Some err) (s'\<lparr>logged := logged s' @ [err]\<rparr>)
      | (Inr hostsQuery, s') \<Rightarrow> searchLoop w n (addHosts hosts hostsQuery) lastError s')"

text \<open>
  \<^verbatim>\<open>SearchNodes\<close> returns both the slice and \<^verbatim>\<open>lastError\<close>, as the Go function does.
  The slice holds the keys of the map in the order \<^verbatim>\<open>range\<close> visits them, without
  \<^verbatim>\<open>currentNode\<close>.
\<close>

definition SearchNodes ::
  "world \<Rightarrow> string \<Rightarrow> effects \<Rightarrow> (string list \<times> error option) \<times> effects" where
  "SearchNodes w currentNode s =
     (case searchLoop w 3 [] None s of
        ((hosts, lastError), s') \<Rightarrow>
          ((filter (\<lambda>host. currentNode \<noteq> host) (sort_key (rangeRank w) hosts), lastError), s'))"

text \<open>
  The loop of \<^verbatim>\<open>SearchLeader\<close> over the nodes. A node that cannot be contacted is
  logged and skipped.
\<close>

fun leaderLoop :: "world \<Rightarrow> string list \<Rightarrow> effects \<Rightarrow> (error + string) \<times> effects" where
  "leaderLoop w [] s = (Inl (ErrorNew ErrLeaderNotFound), s)"
| "leaderLoop w (node # nodes) s =
     (case IsLeader w (MakeGrpcAddress w node) of
        Inl err \<Rightarrow>
          leaderLoop w nodes
            (s\<lparr>isLeaderCalls := isLeaderCalls s @ [MakeGrpcAddress w node],
               logged := logged s @
                 [ErrorWrap err ''couldn't contact node while searching for leaders'']\<rparr>)
      | Inr leader \<Rightarrow>
          if leader then (Inr node, s\<lparr>isLeaderCalls := isLeaderCalls s @ [MakeGrpcAddress w node]\<rparr>)
          else leaderLoop w nodes (s\<lparr>isLeaderCalls := isLeaderCalls s @ [MakeGrpcAddress w node]\<rparr>))"

text \<open>
  \<^verbatim>\<open>SearchLeader\<close>: \<open>Inl\<close> is the error (Go returns the empty string beside it),
  \<open>Inr\<close> the leader's id.
\<close>

definition SearchLeader :: "world \<Rightarrow> string \<Rightarrow> effects \<Rightarrow> (error + string) \<times> effects" where
  "SearchLeader w currentNode s =
     (case SearchNodes w currentNode s of
        ((nodes, Some errNodes), s') \<Rightarrow> (Inl errNodes, s')
      | ((nodes, None), s') \<Rightarrow> leaderLoop w nodes s')"

text \<open>Whether a node answers \<^verbatim>\<open>IsLeader\<close> with leader = true.\<close>

definition reportsLeader :: "world \<Rightarrow> string \<Rightarrow> bool" where
  "reportsLeader w node = (IsLeader w (MakeGrpcAddress w node) = Inr True)"

text \<open>
  The names one query attempt contributes to the map: none when the query failed, the
  hosts without their dots otherwise.
\<close>

definition attemptHosts :: "world \<Rightarrow> nat \<Rightarrow> string set" where
  "attemptHosts w k =
     (case mdnsQuery w k of
        Inl err \<Rightarrow> {}
      | Inr hosts \<Rightarrow> (\<lambda>host. ReplaceAll host (CHR ''.'') '''') ` set hosts)"

text \<open>The state before the code has done anything.\<close>

definition noEffects :: effects where
  "noEffects = \<lparr>queries = 0, logged = [], isLeaderCalls = [], joinCalls = [], bootstrapCalls = []\<rparr>"

section \<open>Package consensus\<close>

text \<open>
  \<^verbatim>\<open>fmt.Sprintf("node%v", i)\<close> for an \<^verbatim>\<open>int\<close> that is not negative: the decimal
  digits of \<open>i\<close> after \<^verbatim>\<open>node\<close>.
\<close>

fun decimal :: "nat \<Rightarrow> string" where
  "decimal i =
     (if i < 10 then [''0123456789'' ! i]
      else decimal (i div 10) @ [''0123456789'' ! (i mod 10)])"

declare decimal.simps [simp del]

definition Sprintf_node :: "nat \<Rightarrow> string" where
  "Sprintf_node i = ''node'' @ decimal i"

text \<open>
  The loop \<^verbatim>\<open>for i := 1; i <= 3; i++\<close> of \<^verbatim>\<open>startConsensus\<close>, which appends one
  server per round to \<^verbatim>\<open>bootstrappingServers\<close>.
\<close>

function bootstrapLoop :: "world \<Rightarrow> nat \<Rightarrow> Server list \<Rightarrow> Server list" where
  "bootstrapLoop w i bootstrappingServers =
     (if i \<le> 3 then
        bootstrapLoop w (Suc i)
          (bootstrappingServers @
             [\<lparr>Suffrage = Voter, ID = Sprintf_node i,
               Address = MakeConsensusAddr w (Sprintf_node i)\<rparr>])
      else bootstrappingServers)"
  by pat_completeness auto
termination
  by (relation "measure (\<lambda>(w, i, bootstrappingServers). 4 - i)") auto

declare bootstrapLoop.simps [simp del]

text \<open>
  The slice \<^verbatim>\<open>bootstrappingServers\<close> after the loop: it starts empty, and \<open>i\<close> at 1.
\<close>

definition bootstrappingServers :: "world \<Rightarrow> Server list" where
  "bootstrappingServers w = bootstrapLoop w 1 []"

fun isNodePresentInServers :: "string \<Rightarrow> Server list \<Rightarrow> bool" where
  "isNodePresentInServers nodeID [] = False"
| "isNodePresentInServers nodeID (server # servers) =
     (if nodeID = ID server then True else isNodePresentInServers nodeID servers)"

text \<open>
  \<^verbatim>\<open>joinNodeToExistingConsensus\<close>: the error it returns, if any, and the effects.
\<close>

definition joinNodeToExistingConsensus ::
  "world \<Rightarrow> string \<Rightarrow> effects \<Rightarrow> error option \<times> effects" where
  "joinNodeToExistingConsensus w nodeID s =
     (case SearchLeader w nodeID s of
        (Inl errSearchLeader, s') \<Rightarrow> (Some errSearchLeader, s')
      | (Inr leaderID, s') \<Rightarrow>
          (ConsensusJoin w nodeID (MakeConsensusAddr w nodeID) (MakeGrpcAddress w leaderID),
           s'\<lparr>joinCalls := joinCalls s' @
                 [(nodeID, MakeConsensusAddr w nodeID, MakeGrpcAddress w leaderID)]\<rparr>))"

text \<open>
  \<^verbatim>\<open>startConsensus\<close>, with the source's three exits before the join: the
  configuration already has two servers; the bootstrap failed with an error whose
  message does not contain \<^verbatim>\<open>not a voter\<close>; the bootstrap succeeded and the node is
  one of the bootstrapping servers.
\<close>

definition startConsensus :: "world \<Rightarrow> string \<Rightarrow> effects \<Rightarrow> error option \<times> effects" where
  "startConsensus w currentNodeID s =
     (if length (GetConfiguration w) \<ge> 2 then (None, s)
      else
        let servers = bootstrappingServers w;
            futureError = BootstrapCluster w servers;
            s1 = s\<lparr>bootstrapCalls := bootstrapCalls s @ [servers]\<rparr>
        in
          if (case futureError of
                None \<Rightarrow> False
              | Some msg \<Rightarrow> \<not> Contains msg ''not a voter'')
          then (None, s1)
          else if futureError = None \<and> isNodePresentInServers currentNodeID servers
          then (None, s1)
          else
            (case joinNodeToExistingConsensus w currentNodeID s1 of
               (Some errJoin, s2) \<Rightarrow> (Some (ErrorWrap errJoin ''while bootstrapping''), s2)
             | (None, s2) \<Rightarrow> (None, s2)))"

section \<open>Package route\<close>

text \<open>
  Modelled from the spec: the struct \<^verbatim>\<open>fsm.Payload\<close> is declared in a file that is
  not among the sources; the spec gives its fields, \<^verbatim>\<open>operation\<close>, \<^verbatim>\<open>key\<close> and
  \<^verbatim>\<open>value\<close>, the value of any type.
\<close>

record 'v Payload =
  Key :: string
  Value :: 'v
  Operation :: string

text \<open>
  The answers of package \<^verbatim>\<open>jsonresponse\<close>, one constructor per function the
  handlers call, with the message (and for \<^verbatim>\<open>OK\<close> the data, here always the empty
  string).
\<close>

datatype response =
  OK string string
| BadRequest string
| NotFound string
| ServerError string

text \<open>
  What the handlers call and do not define:
  \<^item> \<open>ParseAndValidate ctx\<close> is the outcome of
    \<^verbatim>\<open>fiberparser.ParseAndValidate(fiberCtx, payload)\<close>: the message of its error, or
    the payload it filled from the request body;
  \<^item> \<open>Execute payload\<close> is the message of the error of
    \<^verbatim>\<open>cluster.Execute(a.Config, a.Consensus, payload)\<close>, if any;
  \<^item> \<open>ToLower\<close> is \<^verbatim>\<open>strings.ToLower\<close>.
\<close>

record ('ctx, 'v) ApiCtx =
  ParseAndValidate :: "'ctx \<Rightarrow> string + 'v Payload"
  Execute :: "'v Payload \<Rightarrow> string option"
  ToLower :: "string \<Rightarrow> string"

text \<open>
  The handlers return the response and the list of the payloads submitted to
  \<^verbatim>\<open>cluster.Execute\<close> so far.
\<close>

definition storeSet ::
  "('ctx, 'v) ApiCtx \<Rightarrow> 'ctx \<Rightarrow> 'v Payload list \<Rightarrow> response \<times> 'v Payload list" where
  "storeSet a fiberCtx submitted =
     (case ParseAndValidate a fiberCtx of
        Inl errParse \<Rightarrow> (BadRequest errParse, submitted)
      | Inr payload \<Rightarrow>
          (case Execute a (payload\<lparr>Operation := ''SET''\<rparr>) of
             Some errCluster \<Rightarrow>
               (ServerError errCluster, submitted @ [payload\<lparr>Operation := ''SET''\<rparr>])
           | None \<Rightarrow>
               (OK ''data persisted successfully'' '''',
                submitted @ [payload\<lparr>Operation := ''SET''\<rparr>])))"

definition storeDelete ::
  "('ctx, 'v) ApiCtx \<Rightarrow> 'ctx \<Rightarrow> 'v Payload list \<Rightarrow> response \<times> 'v Payload list" where
  "storeDelete a fiberCtx submitted =
     (case ParseAndValidate a fiberCtx of
        Inl errParse \<Rightarrow> (BadRequest errParse, submitted)
      | Inr payload \<Rightarrow>
          (case Execute a (payload\<lparr>Operation := ''DELETE''\<rparr>) of
             Some errCluster \<Rightarrow>
               (if Contains (ToLower a errCluster) ''key not found''
                then (NotFound ''key doesn't exist'',
                      submitted @ [payload\<lparr>Operation := ''DELETE''\<rparr>])
                else (ServerError errCluster,
                      submitted @ [payload\<lparr>Operation := ''DELETE''\<rparr>]))
           | None \<Rightarrow>
               (OK ''data deleted successfully'' '''',
                submitted @ [payload\<lparr>Operation := ''DELETE''\<rparr>])))"

section \<open>Package fsm\<close>



section \<open>Example worlds\<close>

text \<open>
  Three nodes answer every query, each name with the dot some platforms append.
  \<^verbatim>\<open>node2\<close> cannot be contacted and \<^verbatim>\<open>node3\<close> is the leader; the engine has no
  configuration yet and refuses to bootstrap a node that is not a voter.
\<close>

definition exampleWorld :: world where
  "exampleWorld =
     \<lparr>mdnsQuery = (\<lambda>n. Inr [''node1.'', ''node2.'', ''node3.'']),
      rangeRank = (\<lambda>host. if host = ''node2'' then 0 else 1),
      IsLeader = (\<lambda>addr. if addr = ''node2:8001'' then Inl (ErrorNew ''connection refused'')
                          else Inr (addr = ''node3:8001'')),
      ConsensusJoin = (\<lambda>nodeID consensusAddr leaderAddr. None),
      MakeGrpcAddress = (\<lambda>nodeID. nodeID @ '':8001''),
      MakeConsensusAddr = (\<lambda>nodeID. nodeID @ '':3001''),
      GetConfiguration = [],
      BootstrapCluster = (\<lambda>servers. Some ''node is not a voter'')\<rparr>"

text \<open>
  The first query times out, the next two find \<^verbatim>\<open>node2\<close>, and every node that is asked
  says it is the leader.
\<close>

definition lossyWorld :: world where
  "lossyWorld =
     \<lparr>mdnsQuery = (\<lambda>n. if n = 0 then Inl (ErrorNew ''i/o timeout'') else Inr [''node2.'']),
      rangeRank = (\<lambda>host. 0),
      IsLeader = (\<lambda>addr. Inr True),
      ConsensusJoin = (\<lambda>nodeID consensusAddr leaderAddr. None),
      MakeGrpcAddress = (\<lambda>nodeID. nodeID @ '':8001''),
      MakeConsensusAddr = (\<lambda>nodeID. nodeID @ '':3001''),
      GetConfiguration = [],
      BootstrapCluster = (\<lambda>servers. Some ''node is not a voter'')\<rparr>"

text \<open>A node whose name has a dot inside answers every query.\<close>

definition dottedWorld :: world where
  "dottedWorld =
     \<lparr>mdnsQuery = (\<lambda>n. Inr [''node2.local.'']),
      rangeRank = (\<lambda>host. 0),
      IsLeader = (\<lambda>addr. Inr True),
      ConsensusJoin = (\<lambda>nodeID consensusAddr leaderAddr. None),
      MakeGrpcAddress = (\<lambda>nodeID. nodeID @ '':8001''),
      MakeConsensusAddr = (\<lambda>nodeID. nodeID @ '':3001''),
      GetConfiguration = [],
      BootstrapCluster = (\<lambda>servers. None)\<rparr>"

text \<open>
  The engine refuses the bootstrap with the error it gives on a cluster that is not
  new; \<^verbatim>\<open>node1\<close> answers every query and says it is the leader.
\<close>

definition staleWorld :: world where
  "staleWorld =
     \<lparr>mdnsQuery = (\<lambda>n. Inr [''node1.'']),
      rangeRank = (\<lambda>host. 0),
      IsLeader = (\<lambda>addr. Inr True),
      ConsensusJoin = (\<lambda>nodeID consensusAddr leaderAddr. None),
      MakeGrpcAddress = (\<lambda>nodeID. nodeID @ '':8001''),
      MakeConsensusAddr = (\<lambda>nodeID. nodeID @ '':3001''),
      GetConfiguration = [],
      BootstrapCluster = (\<lambda>servers. Some ''bootstrap only works on new clusters'')\<rparr>"

text \<open>A node that resumes: the engine's configuration already lists the three servers.\<close>

definition resumedWorld :: world where
  "resumedWorld =
     \<lparr>mdnsQuery = (\<lambda>n. Inr [''node1.'']),
      rangeRank = (\<lambda>host. 0),
      IsLeader = (\<lambda>addr. Inr True),
      ConsensusJoin = (\<lambda>nodeID consensusAddr leaderAddr. None),
      MakeGrpcAddress = (\<lambda>nodeID. nodeID @ '':8001''),
      MakeConsensusAddr = (\<lambda>nodeID. nodeID @ '':3001''),
      GetConfiguration =
        [\<lparr>Suffrage = Voter, ID = ''node1'', Address = ''node1:3001''\<rparr>,
         \<lparr>Suffrage = Voter, ID = ''node2'', Address = ''node2:3001''\<rparr>,
         \<lparr>Suffrage = Voter, ID = ''node3'', Address = ''node3:3001''\<rparr>],
      BootstrapCluster = (\<lambda>servers. Some ''bootstrap only works on new clusters'')\<rparr>"

text \<open>
  A front end whose parser accepts every body as it is, on a cluster that executes
  every payload.
\<close>

definition exampleApi :: "(string Payload, string) ApiCtx" where
  "exampleApi =
     \<lparr>ParseAndValidate = (\<lambda>body. Inr body),
      Execute = (\<lambda>payload. None),
      ToLower = (\<lambda>s. s)\<rparr>"


section \<open>Facts about the discovery loops\<close>

lemma Contains_iff: "Contains s substr \<longleftrightarrow> (\<exists>a b. s = a @ substr @ b)"
proof -
  have pre: "HasPrefix t p \<longleftrightarrow> (\<exists>b. t = p @ b)" for t p
    by (induction t p rule: HasPrefix.induct) auto
  show ?thesis
  proof (induction s)
    case Nil
    then show ?case by simp
  next
    case (Cons c s)
    show ?case
    proof
      assume "Contains (c # s) substr"
      then consider "HasPrefix (c # s) substr" | "Contains s substr" by auto
      then show "\<exists>a b. c # s = a @ substr @ b"
      proof cases
        case 1
        then obtain b where "c # s = substr @ b" using pre by blast
        then have "c # s = [] @ substr @ b" by simp
        then show ?thesis by blast
      next
        case 2
        then obtain a b where "s = a @ substr @ b" using Cons.IH by blast
        then have "c # s = (c # a) @ substr @ b" by simp
        then show ?thesis by blast
      qed
    next
      assume "\<exists>a b. c # s = a @ substr @ b"
      then obtain a b where ab: "c # s = a @ substr @ b" by blast
      show "Contains (c # s) substr"
      proof (cases a)
        case Nil
        then have "HasPrefix (c # s) substr" using ab pre by auto
        then show ?thesis by simp
      next
        case (Cons x a')
        then have "s = a' @ substr @ b" using ab by simp
        then have "Contains s substr" using Cons.IH by blast
        then show ?thesis by simp
      qed
    qed
  qed
qed

lemma ReplaceAll_delete: "ReplaceAll s old [] = filter (\<lambda>c. c \<noteq> old) s"
  by (induction s) auto

lemma leaderLoop_result:
  "fst (leaderLoop w nodes s) =
     (case find (reportsLeader w) nodes of
        None \<Rightarrow> Inl (ErrorNew ErrLeaderNotFound)
      | Some n \<Rightarrow> Inr n)"
  by (induction nodes arbitrary: s) (auto simp: reportsLeader_def split: sum.splits)

lemma leaderLoop_calls:
  "isLeaderCalls (snd (leaderLoop w nodes s)) =
     isLeaderCalls s @ map (MakeGrpcAddress w)
       (takeWhile (\<lambda>n. \<not> reportsLeader w n) nodes @
        take 1 (dropWhile (\<lambda>n. \<not> reportsLeader w n) nodes))"
  by (induction nodes arbitrary: s) (auto simp: reportsLeader_def split: sum.splits)

lemma leaderLoop_logged:
  "logged (snd (leaderLoop w nodes s)) =
     logged s @ concat (map (\<lambda>n. case IsLeader w (MakeGrpcAddress w n) of
          Inl err \<Rightarrow> [ErrorWrap err ''couldn't contact node while searching for leaders'']
        | Inr b \<Rightarrow> [])
       (takeWhile (\<lambda>n. \<not> reportsLeader w n) nodes))"
  by (induction nodes arbitrary: s) (auto simp: reportsLeader_def split: sum.splits)

lemma leaderLoop_frame:
  "queries (snd (leaderLoop w nodes s)) = queries s \<and>
   joinCalls (snd (leaderLoop w nodes s)) = joinCalls s \<and>
   bootstrapCalls (snd (leaderLoop w nodes s)) = bootstrapCalls s"
  by (induction nodes arbitrary: s) (auto split: sum.splits)

lemma set_addHosts:
  "set (addHosts hosts hq) = set hosts \<union> (\<lambda>host. ReplaceAll host (CHR ''.'') '''') ` set hq"
  by (induction hq arbitrary: hosts) auto

lemma distinct_addHosts: "distinct hosts \<Longrightarrow> distinct (addHosts hosts hq)"
  by (induction hq arbitrary: hosts) auto

lemma UN_shift: "(\<Union>j<Suc n. f (k + j)) = f k \<union> (\<Union>j<n. f (Suc k + j))"
  by (auto simp: lessThan_Suc_eq_insert_0)

lemma searchLoop_hosts:
  "set (fst (fst (searchLoop w n hosts le s))) =
     set hosts \<union> (\<Union>j<n. attemptHosts w (queries s + j))"
proof (induction n arbitrary: hosts le s)
  case 0
  then show ?case by simp
next
  case (Suc n)
  show ?case
    unfolding UN_shift
    by (cases "mdnsQuery w (queries s)")
       (auto simp: query_def Suc set_addHosts attemptHosts_def)
qed

lemma searchLoop_frame:
  "queries (snd (searchLoop w n hosts le s)) = queries s + n \<and>
   isLeaderCalls (snd (searchLoop w n hosts le s)) = isLeaderCalls s \<and>
   joinCalls (snd (searchLoop w n hosts le s)) = joinCalls s \<and>
   bootstrapCalls (snd (searchLoop w n hosts le s)) = bootstrapCalls s"
  by (induction n arbitrary: hosts le s) (auto simp: query_def split: sum.splits)

lemma searchLoop_no_error:
  "\<forall>j<n. \<exists>hs. mdnsQuery w (queries s + j) = Inr hs \<Longrightarrow>
   snd (fst (searchLoop w n hosts le s)) = le"
proof (induction n arbitrary: hosts le s)
  case 0
  then show ?case by simp
next
  case (Suc n)
  from Suc.prems obtain hs where hs: "mdnsQuery w (queries s) = Inr hs" by force
  have "\<forall>j<n. \<exists>hs. mdnsQuery w (Suc (queries s) + j) = Inr hs"
    using Suc.prems by (metis Suc_less_eq add_Suc_shift)
  then show ?case using hs by (simp add: query_def Suc.IH)
qed

lemma searchLoop_last_error:
  "i < n \<Longrightarrow> mdnsQuery w (queries s + i) = Inl e \<Longrightarrow>
   \<forall>j<n. i < j \<longrightarrow> (\<exists>hs. mdnsQuery w (queries s + j) = Inr hs) \<Longrightarrow>
   snd (fst (searchLoop w n hosts le s)) = Some (ErrorWrap e ''discover search'')"
proof (induction n arbitrary: hosts le s i)
  case 0
  then show ?case by simp
next
  case (Suc n)
  show ?case
  proof (cases i)
    case 0
    have "\<forall>j<n. \<exists>hs. mdnsQuery w (Suc (queries s) + j) = Inr hs"
      using Suc.prems(3) 0 by (metis Suc_less_eq add_Suc_shift zero_less_Suc)
    then show ?thesis using Suc.prems(2) 0
      by (simp add: query_def searchLoop_no_error)
  next
    case (Suc i')
    have a: "i' < n" using Suc Suc.prems(1) by simp
    have b: "mdnsQuery w (Suc (queries s) + i') = Inl e" using Suc Suc.prems(2) by simp
    have c: "\<forall>j<n. i' < j \<longrightarrow> (\<exists>hs. mdnsQuery w (Suc (queries s) + j) = Inr hs)"
      using Suc Suc.prems(3) by (metis Suc_less_eq add_Suc_shift)
    show ?thesis
      by (cases "mdnsQuery w (queries s)") (use a b c in \<open>auto simp: query_def intro!: Suc.IH\<close>)
  qed
qed

lemma SearchNodes_nodes:
  "set (fst (fst (SearchNodes w cur s))) = (\<Union>j<3. attemptHosts w (queries s + j)) - {cur}"
proof -
  obtain hosts le s' where r: "searchLoop w 3 [] None s = ((hosts, le), s')"
    by (metis surj_pair)
  have "set hosts = (\<Union>j<3. attemptHosts w (queries s + j))"
    using searchLoop_hosts [of w 3 "[]" None s] r by simp
  then show ?thesis by (auto simp: SearchNodes_def r)
qed

lemma attemptHosts_no_dots: "host \<in> attemptHosts w k \<Longrightarrow> CHR ''.'' \<notin> set host"
  by (cases "mdnsQuery w k") (auto simp: attemptHosts_def ReplaceAll_delete)

lemma SearchNodes_no_dots:
  "host \<in> set (fst (fst (SearchNodes w cur s))) \<Longrightarrow> CHR ''.'' \<notin> set host"
  unfolding SearchNodes_nodes using attemptHosts_no_dots by blast

lemma SearchNodes_error:
  "snd (fst (SearchNodes w cur s)) = snd (fst (searchLoop w 3 [] None s))"
  by (simp add: SearchNodes_def split: prod.splits)

lemma SearchNodes_effects: "snd (SearchNodes w cur s) = snd (searchLoop w 3 [] None s)"
  by (simp add: SearchNodes_def split: prod.splits)

lemma SearchLeader_unfold:
  "SearchLeader w cur s =
     (case snd (fst (SearchNodes w cur s)) of
        Some errNodes \<Rightarrow> (Inl errNodes, snd (SearchNodes w cur s))
      | None \<Rightarrow> leaderLoop w (fst (fst (SearchNodes w cur s))) (snd (SearchNodes w cur s)))"
  by (simp add: SearchLeader_def split: prod.splits option.splits)

lemma SearchLeader_frame:
  "queries (snd (SearchLeader w cur s)) = queries s + 3 \<and>
   joinCalls (snd (SearchLeader w cur s)) = joinCalls s \<and>
   bootstrapCalls (snd (SearchLeader w cur s)) = bootstrapCalls s"
  by (simp add: SearchLeader_unfold SearchNodes_effects searchLoop_frame leaderLoop_frame
        split: option.splits)

section \<open>The example worlds, evaluated\<close>

lemma SearchNodes_exampleWorld:
  "SearchNodes exampleWorld ''node1'' noEffects =
     (([''node2'', ''node3''], None), noEffects\<lparr>queries := 3\<rparr>)"
  by (simp add: SearchNodes_def numeral_3_eq_3 query_def exampleWorld_def noEffects_def)

lemma SearchLeader_exampleWorld:
  "SearchLeader exampleWorld ''node1'' noEffects =
     (Inr ''node3'',
      noEffects\<lparr>queries := 3, isLeaderCalls := [''node2:8001'', ''node3:8001''],
        logged := [ErrorWrap (ErrorNew ''connection refused'')
                     ''couldn't contact node while searching for leaders'']\<rparr>)"
  by (simp add: SearchLeader_def SearchNodes_exampleWorld)
     (simp add: exampleWorld_def noEffects_def)

lemma SearchNodes_lossyWorld:
  "SearchNodes lossyWorld ''node1'' noEffects =
     (([''node2''], Some (ErrorWrap (ErrorNew ''i/o timeout'') ''discover search'')),
      noEffects\<lparr>queries := 3,
        logged := [ErrorWrap (ErrorNew ''i/o timeout'') ''discover search'']\<rparr>)"
  by (simp add: SearchNodes_def numeral_3_eq_3 query_def lossyWorld_def noEffects_def)

lemma SearchLeader_lossyWorld:
  "SearchLeader lossyWorld ''node1'' noEffects =
     (Inl (ErrorWrap (ErrorNew ''i/o timeout'') ''discover search''),
      noEffects\<lparr>queries := 3,
        logged := [ErrorWrap (ErrorNew ''i/o timeout'') ''discover search'']\<rparr>)"
  by (simp add: SearchLeader_def SearchNodes_lossyWorld)

section \<open>Claims about package discover\<close>

text \<open>
  C2. The claim: in \<^verbatim>\<open>SearchNodes\<close> only a trailing dot of a returned host name is
  stripped, and every other character, interior dots included, is kept. The code calls
  \<^verbatim>\<open>strings.ReplaceAll(host, ".", "")\<close>, which deletes every dot: the host
  \<^verbatim>\<open>node2.local.\<close> is returned as \<^verbatim>\<open>node2local\<close>, not as \<^verbatim>\<open>node2.local\<close>.
\<close>

theorem SearchNodes_deletes_interior_dots:
  "fst (fst (SearchNodes dottedWorld ''node1'' noEffects)) = [''node2local''] \<and>
   ''node2local'' \<noteq> ''node2.local''"
  by (simp add: SearchNodes_def numeral_3_eq_3 query_def dottedWorld_def noEffects_def)

text \<open>
  C3. For every id \<open>currentNode\<close> and every outcome of the mDNS queries, an id that
  \<^verbatim>\<open>SearchLeader(currentNode)\<close> returns is not \<open>currentNode\<close>, whatever the nodes
  answer to \<^verbatim>\<open>IsLeader\<close>.
\<close>

theorem SearchLeader_never_self:
  "fst (SearchLeader w currentNode s) = Inr node \<Longrightarrow> node \<noteq> currentNode"
proof -
  assume r: "fst (SearchLeader w currentNode s) = Inr node"
  let ?nodes = "fst (fst (SearchNodes w currentNode s))"
  have "find (reportsLeader w) ?nodes = Some node"
    using r by (auto simp: SearchLeader_unfold leaderLoop_result split: option.splits)
  then have "node \<in> set ?nodes"
    by (auto simp: find_Some_iff)
  then show ?thesis by (simp add: SearchNodes_nodes)
qed

theorem SearchLeader_never_self_witness:
  "fst (SearchLeader exampleWorld ''node1'' noEffects) = Inr ''node3'' \<and> ''node3'' \<noteq> ''node1''"
  using SearchLeader_never_self [of exampleWorld "''node1''" noEffects "''node3''"]
  by (simp add: SearchLeader_exampleWorld)

text \<open>
  C4, as the claim states it, fails: in \<open>lossyWorld\<close> the first of the three queries
  fails, \<^verbatim>\<open>node2\<close> is discovered by the other two and reports leader = true, and yet
  \<^verbatim>\<open>SearchLeader\<close> returns the query's error without one call of \<^verbatim>\<open>IsLeader\<close>:
  neither the first peer that reports leader = true nor \<^verbatim>\<open>LeaderNotFound\<close>.
\<close>

theorem SearchLeader_first_leader_counterexample:
  "fst (fst (SearchNodes lossyWorld ''node1'' noEffects)) = [''node2''] \<and>
   reportsLeader lossyWorld ''node2'' \<and>
   fst (SearchLeader lossyWorld ''node1'' noEffects) \<noteq> Inr ''node2'' \<and>
   fst (SearchLeader lossyWorld ''node1'' noEffects) \<noteq> Inl (ErrorNew ErrLeaderNotFound) \<and>
   isLeaderCalls (snd (SearchLeader lossyWorld ''node1'' noEffects)) = []"
  by (simp add: SearchNodes_lossyWorld SearchLeader_lossyWorld)
     (simp add: reportsLeader_def lossyWorld_def noEffects_def)

text \<open>
  C4, amended. When \<^verbatim>\<open>SearchNodes\<close> returned no error (none of the three queries
  failed), \<^verbatim>\<open>SearchLeader\<close> asks the discovered peers \<^verbatim>\<open>IsLeader\<close> in the order of
  the slice, up to and including the first that reports leader = true; it logs every
  peer it could not contact and goes on; it returns the id of the first peer that
  reports leader = true; and it returns the error \<^verbatim>\<open>couldn't find a leader\<close> exactly
  when no discovered peer reports leader = true.
\<close>

theorem SearchLeader_first_leader:
  assumes "snd (fst (SearchNodes w currentNode s)) = None"
  shows
    "fst (SearchLeader w currentNode s) =
       (case find (reportsLeader w) (fst (fst (SearchNodes w currentNode s))) of
          Some node \<Rightarrow> Inr node
        | None \<Rightarrow> Inl (ErrorNew ErrLeaderNotFound)) \<and>
     (fst (SearchLeader w currentNode s) = Inl (ErrorNew ErrLeaderNotFound) \<longleftrightarrow>
        (\<forall>node \<in> set (fst (fst (SearchNodes w currentNode s))). \<not> reportsLeader w node)) \<and>
     isLeaderCalls (snd (SearchLeader w currentNode s)) =
       isLeaderCalls s @ map (MakeGrpcAddress w)
         (takeWhile (\<lambda>n. \<not> reportsLeader w n) (fst (fst (SearchNodes w currentNode s))) @
          take 1 (dropWhile (\<lambda>n. \<not> reportsLeader w n) (fst (fst (SearchNodes w currentNode s))))) \<and>
     logged (snd (SearchLeader w currentNode s)) =
       logged (snd (SearchNodes w currentNode s)) @
         concat (map (\<lambda>n. case IsLeader w (MakeGrpcAddress w n) of
              Inl err \<Rightarrow> [ErrorWrap err ''couldn't contact node while searching for leaders'']
            | Inr b \<Rightarrow> [])
           (takeWhile (\<lambda>n. \<not> reportsLeader w n) (fst (fst (SearchNodes w currentNode s)))))"
proof -
  let ?nodes = "fst (fst (SearchNodes w currentNode s))"
  let ?s' = "snd (SearchNodes w currentNode s)"
  have sl: "SearchLeader w currentNode s = leaderLoop w ?nodes ?s'"
    using assms by (simp add: SearchLeader_unfold)
  have res: "fst (SearchLeader w currentNode s) =
       (case find (reportsLeader w) ?nodes of
          Some node \<Rightarrow> Inr node
        | None \<Rightarrow> Inl (ErrorNew ErrLeaderNotFound))"
    by (simp add: sl leaderLoop_result split: option.splits)
  have none: "(fst (SearchLeader w currentNode s) = Inl (ErrorNew ErrLeaderNotFound)) =
        (\<forall>node \<in> set ?nodes. \<not> reportsLeader w node)"
  proof (cases "find (reportsLeader w) ?nodes")
    case None
    then have "\<forall>node \<in> set ?nodes. \<not> reportsLeader w node"
      by (simp add: find_None_iff)
    then show ?thesis by (simp add: res None)
  next
    case (Some node)
    then have "node \<in> set ?nodes \<and> reportsLeader w node"
      by (auto simp: find_Some_iff)
    then show ?thesis using Some by (auto simp: res)
  qed
  have calls: "isLeaderCalls (snd (SearchLeader w currentNode s)) =
       isLeaderCalls s @ map (MakeGrpcAddress w)
         (takeWhile (\<lambda>n. \<not> reportsLeader w n) ?nodes @
          take 1 (dropWhile (\<lambda>n. \<not> reportsLeader w n) ?nodes))"
    by (simp only: sl leaderLoop_calls SearchNodes_effects searchLoop_frame)
  have logs: "logged (snd (SearchLeader w currentNode s)) =
       logged ?s' @
         concat (map (\<lambda>n. case IsLeader w (MakeGrpcAddress w n) of
              Inl err \<Rightarrow> [ErrorWrap err ''couldn't contact node while searching for leaders'']
            | Inr b \<Rightarrow> [])
           (takeWhile (\<lambda>n. \<not> reportsLeader w n) ?nodes))"
    by (simp only: sl leaderLoop_logged)
  from res none calls logs show ?thesis by (intro conjI)
qed

theorem SearchLeader_first_leader_witness:
  "snd (fst (SearchNodes exampleWorld ''node1'' noEffects)) = None \<and>
   IsLeader exampleWorld (MakeGrpcAddress exampleWorld ''node2'') =
     Inl (ErrorNew ''connection refused'') \<and>
   fst (SearchLeader exampleWorld ''node1'' noEffects) = Inr ''node3'' \<and>
   isLeaderCalls (snd (SearchLeader exampleWorld ''node1'' noEffects)) =
     [''node2:8001'', ''node3:8001''] \<and>
   logged (snd (SearchLeader exampleWorld ''node1'' noEffects)) =
     [ErrorWrap (ErrorNew ''connection refused'')
        ''couldn't contact node while searching for leaders'']"
proof -
  have h: "snd (fst (SearchNodes exampleWorld ''node1'' noEffects)) = None"
    by (simp add: SearchNodes_exampleWorld)
  have r2: "\<not> reportsLeader exampleWorld ''node2''"
    by (simp add: reportsLeader_def exampleWorld_def)
  have r3: "reportsLeader exampleWorld ''node3''"
    by (simp add: reportsLeader_def exampleWorld_def)
  have u: "IsLeader exampleWorld (MakeGrpcAddress exampleWorld ''node2'') =
     Inl (ErrorNew ''connection refused'')"
    by (simp add: exampleWorld_def)
  have a: "MakeGrpcAddress exampleWorld ''node2'' = ''node2:8001''"
          "MakeGrpcAddress exampleWorld ''node3'' = ''node3:8001''"
    by (simp_all add: exampleWorld_def)
  show ?thesis
    using SearchLeader_first_leader [OF h] h u
    by (simp add: SearchNodes_exampleWorld r2 r3 a) (simp add: noEffects_def)
qed

text \<open>
  C8. If at least one of the three queries of \<^verbatim>\<open>SearchNodes\<close> fails, and \<open>e\<close> is the
  error of the last one that fails, then \<^verbatim>\<open>SearchNodes\<close> returns that error (as
  \<^verbatim>\<open>query\<close> wrapped it) together with the hosts the other attempts discovered, and
  \<^verbatim>\<open>SearchLeader\<close> fails with the same error and calls \<^verbatim>\<open>IsLeader\<close> on no peer.
\<close>

theorem SearchLeader_stops_on_query_error:
  assumes "i < 3"
    and "mdnsQuery w (queries s + i) = Inl e"
    and "\<forall>j<3. i < j \<longrightarrow> (\<exists>hs. mdnsQuery w (queries s + j) = Inr hs)"
  shows
    "snd (fst (SearchNodes w currentNode s)) = Some (ErrorWrap e ''discover search'') \<and>
     set (fst (fst (SearchNodes w currentNode s))) =
       (\<Union>j<3. attemptHosts w (queries s + j)) - {currentNode} \<and>
     fst (SearchLeader w currentNode s) = Inl (ErrorWrap e ''discover search'') \<and>
     isLeaderCalls (snd (SearchLeader w currentNode s)) = isLeaderCalls s"
proof -
  have err: "snd (fst (SearchNodes w currentNode s)) = Some (ErrorWrap e ''discover search'')"
    unfolding SearchNodes_error using assms by (rule searchLoop_last_error)
  have res: "fst (SearchLeader w currentNode s) = Inl (ErrorWrap e ''discover search'')"
    by (simp add: SearchLeader_unfold err)
  have calls: "isLeaderCalls (snd (SearchLeader w currentNode s)) = isLeaderCalls s"
    by (simp add: SearchLeader_unfold err SearchNodes_effects searchLoop_frame)
  from err SearchNodes_nodes res calls show ?thesis by (intro conjI)
qed

theorem SearchLeader_stops_on_query_error_witness:
  "mdnsQuery lossyWorld 0 = Inl (ErrorNew ''i/o timeout'') \<and>
   fst (SearchNodes lossyWorld ''node1'' noEffects) =
     ([''node2''], Some (ErrorWrap (ErrorNew ''i/o timeout'') ''discover search'')) \<and>
   fst (SearchLeader lossyWorld ''node1'' noEffects) =
     Inl (ErrorWrap (ErrorNew ''i/o timeout'') ''discover search'') \<and>
   isLeaderCalls (snd (SearchLeader lossyWorld ''node1'' noEffects)) = []"
proof -
  have h1: "(0::nat) < 3" by simp
  have h2: "mdnsQuery lossyWorld (queries noEffects + 0) = Inl (ErrorNew ''i/o timeout'')"
    by (simp add: lossyWorld_def noEffects_def)
  have h3: "\<forall>j<3. 0 < j \<longrightarrow> (\<exists>hs. mdnsQuery lossyWorld (queries noEffects + j) = Inr hs)"
    by (simp add: lossyWorld_def noEffects_def)
  have q0: "mdnsQuery lossyWorld 0 = Inl (ErrorNew ''i/o timeout'')"
    by (simp add: lossyWorld_def)
  have nodes: "fst (fst (SearchNodes lossyWorld ''node1'' noEffects)) = [''node2'']"
    by (simp add: SearchNodes_lossyWorld)
  show ?thesis
    using SearchLeader_stops_on_query_error [OF h1 h2 h3, of "''node1''"] q0 nodes
    by (simp add: prod_eq_iff) (simp add: noEffects_def)
qed

section \<open>Facts about package consensus\<close>

lemma Sprintf_node_123:
  "Sprintf_node (Suc 0) = ''node1''"
  "Sprintf_node (Suc (Suc 0)) = ''node2''"
  "Sprintf_node (Suc (Suc (Suc 0))) = ''node3''"
  by (simp_all add: Sprintf_node_def decimal.simps)

lemma bootstrappingServers_value:
  "bootstrappingServers w =
     [\<lparr>Suffrage = Voter, ID = ''node1'', Address = MakeConsensusAddr w ''node1''\<rparr>,
      \<lparr>Suffrage = Voter, ID = ''node2'', Address = MakeConsensusAddr w ''node2''\<rparr>,
      \<lparr>Suffrage = Voter, ID = ''node3'', Address = MakeConsensusAddr w ''node3''\<rparr>]"
proof -
  have stop: "bootstrapLoop w (Suc (Suc (Suc (Suc 0)))) xs = xs" for xs
    by (subst bootstrapLoop.simps) simp
  have step: "i \<le> 3 \<Longrightarrow>
      bootstrapLoop w i xs =
        bootstrapLoop w (Suc i)
          (xs @ [\<lparr>Suffrage = Voter, ID = Sprintf_node i,
                  Address = MakeConsensusAddr w (Sprintf_node i)\<rparr>])" for i xs
    by (subst bootstrapLoop.simps) simp
  show ?thesis
    by (simp add: bootstrappingServers_def step stop Sprintf_node_123)
qed

lemma isNodePresentInServers_iff:
  "isNodePresentInServers nodeID servers \<longleftrightarrow> nodeID \<in> ID ` set servers"
  by (induction servers) auto

lemma isNodePresentInServers_bootstrap:
  "isNodePresentInServers nodeID (bootstrappingServers w) \<longleftrightarrow>
     nodeID = ''node1'' \<or> nodeID = ''node2'' \<or> nodeID = ''node3''"
  by (simp only: bootstrappingServers_value) simp

lemma joinNodeToExistingConsensus_bootstrapCalls:
  "bootstrapCalls (snd (joinNodeToExistingConsensus w nodeID s)) = bootstrapCalls s"
proof (cases "SearchLeader w nodeID s")
  case (Pair r s')
  have "bootstrapCalls s' = bootstrapCalls s"
    using SearchLeader_frame [of w nodeID s] Pair by simp
  then show ?thesis
    by (cases r) (simp_all add: joinNodeToExistingConsensus_def Pair)
qed

lemma startConsensus_bootstrapCalls:
  "length (GetConfiguration w) < 2 \<Longrightarrow>
   bootstrapCalls (snd (startConsensus w currentNodeID s)) =
     bootstrapCalls s @ [bootstrappingServers w]"
proof -
  assume cfg: "length (GetConfiguration w) < 2"
  let ?s1 = "s\<lparr>bootstrapCalls := bootstrapCalls s @ [bootstrappingServers w]\<rparr>"
  have j: "bootstrapCalls (snd (joinNodeToExistingConsensus w currentNodeID ?s1)) =
      bootstrapCalls s @ [bootstrappingServers w]"
    by (simp add: joinNodeToExistingConsensus_bootstrapCalls)
  obtain e s2 where r: "joinNodeToExistingConsensus w currentNodeID ?s1 = (e, s2)"
    by (metis surj_pair)
  have "bootstrapCalls s2 = bootstrapCalls s @ [bootstrappingServers w]"
    using j r by simp
  then show ?thesis
    using cfg by (cases e) (simp_all add: startConsensus_def Let_def r split: option.splits)
qed

section \<open>Claims about package consensus\<close>

text \<open>
  C1, as the claim states it, fails: in \<open>staleWorld\<close> the bootstrap fails with an error
  that does not contain \<^verbatim>\<open>not a voter\<close>, the local id \<^verbatim>\<open>node4\<close> is not one of
  \<^verbatim>\<open>node1\<close>, \<^verbatim>\<open>node2\<close>, \<^verbatim>\<open>node3\<close>, a leader could be found, and still
  \<^verbatim>\<open>startConsensus\<close> returns success with no query sent, no \<^verbatim>\<open>IsLeader\<close> asked and
  no \<^verbatim>\<open>ConsensusJoin\<close> called.
\<close>

theorem startConsensus_other_error_counterexample:
  "BootstrapCluster staleWorld (bootstrappingServers staleWorld) =
     Some ''bootstrap only works on new clusters'' \<and>
   \<not> Contains ''bootstrap only works on new clusters'' ''not a voter'' \<and>
   \<not> isNodePresentInServers ''node4'' (bootstrappingServers staleWorld) \<and>
   fst (SearchLeader staleWorld ''node4'' noEffects) = Inr ''node1'' \<and>
   fst (startConsensus staleWorld ''node4'' noEffects) = None \<and>
   queries (snd (startConsensus staleWorld ''node4'' noEffects)) = 0 \<and>
   isLeaderCalls (snd (startConsensus staleWorld ''node4'' noEffects)) = [] \<and>
   joinCalls (snd (startConsensus staleWorld ''node4'' noEffects)) = []"
proof -
  have b: "BootstrapCluster staleWorld servers = Some ''bootstrap only works on new clusters''"
    for servers
    by (simp add: staleWorld_def)
  have c: "\<not> Contains ''bootstrap only works on new clusters'' ''not a voter''"
    by simp
  have p: "\<not> isNodePresentInServers ''node4'' (bootstrappingServers staleWorld)"
    by (simp add: isNodePresentInServers_bootstrap)
  have l: "fst (SearchLeader staleWorld ''node4'' noEffects) = Inr ''node1''"
    by (simp add: SearchLeader_def SearchNodes_def numeral_3_eq_3 query_def staleWorld_def
          noEffects_def)
  have g: "GetConfiguration staleWorld = []"
    by (simp add: staleWorld_def)
  have r: "startConsensus staleWorld ''node4'' noEffects =
      (None, noEffects\<lparr>bootstrapCalls := [bootstrappingServers staleWorld]\<rparr>)"
    by (simp add: startConsensus_def Let_def g b c) (simp add: noEffects_def)
  show ?thesis
    by (simp add: b c p l r) (simp add: noEffects_def)
qed

text \<open>
  C1, amended. When \<^verbatim>\<open>BootstrapCluster\<close> returns an error whose message does not
  contain \<^verbatim>\<open>not a voter\<close>, \<^verbatim>\<open>startConsensus\<close> returns success at once, whether or
  not the local id is one of \<^verbatim>\<open>node1\<close>, \<^verbatim>\<open>node2\<close>, \<^verbatim>\<open>node3\<close>: it does not take
  the join path, and its only effect is the call of \<^verbatim>\<open>BootstrapCluster\<close>.
\<close>

theorem startConsensus_other_error:
  assumes "length (GetConfiguration w) < 2"
    and "BootstrapCluster w (bootstrappingServers w) = Some msg"
    and "\<not> Contains msg ''not a voter''"
  shows "startConsensus w currentNodeID s =
           (None, s\<lparr>bootstrapCalls := bootstrapCalls s @ [bootstrappingServers w]\<rparr>)"
  using assms by (simp add: startConsensus_def Let_def)

theorem startConsensus_other_error_witness:
  "\<not> isNodePresentInServers ''node4'' (bootstrappingServers staleWorld) \<and>
   startConsensus staleWorld ''node4'' noEffects =
     (None, noEffects\<lparr>bootstrapCalls := [bootstrappingServers staleWorld]\<rparr>) \<and>
   isNodePresentInServers ''node1'' (bootstrappingServers staleWorld) \<and>
   startConsensus staleWorld ''node1'' noEffects =
     (None, noEffects\<lparr>bootstrapCalls := [bootstrappingServers staleWorld]\<rparr>)"
proof -
  have h1: "length (GetConfiguration staleWorld) < 2"
    by (simp add: staleWorld_def)
  have h2: "BootstrapCluster staleWorld (bootstrappingServers staleWorld) =
      Some ''bootstrap only works on new clusters''"
    by (simp add: staleWorld_def)
  have h3: "\<not> Contains ''bootstrap only works on new clusters'' ''not a voter''"
    by simp
  have e: "bootstrapCalls noEffects = []"
    by (simp add: noEffects_def)
  show ?thesis
    using startConsensus_other_error [OF h1 h2 h3, of "''node4''" noEffects]
      startConsensus_other_error [OF h1 h2 h3, of "''node1''" noEffects]
    by (simp add: e isNodePresentInServers_bootstrap)
qed

text \<open>
  C5. When \<^verbatim>\<open>BootstrapCluster\<close> fails with an error whose message contains
  \<^verbatim>\<open>not a voter\<close>, \<^verbatim>\<open>startConsensus\<close> takes the join path: it searches a leader
  with \<^verbatim>\<open>SearchLeader\<close> (three more mDNS queries) and, when one is found, calls
  \<^verbatim>\<open>ConsensusJoin\<close> once, with the local id, the local node's consensus address and
  the leader's RPC address, and returns what that call returns (an error wrapped with
  \<^verbatim>\<open>while bootstrapping\<close>). When no leader is found it returns that error, wrapped,
  and \<^verbatim>\<open>ConsensusJoin\<close> is not called.
\<close>

theorem startConsensus_not_a_voter_joins:
  assumes "length (GetConfiguration w) < 2"
    and "BootstrapCluster w (bootstrappingServers w) = Some msg"
    and "Contains msg ''not a voter''"
  shows
    "startConsensus w currentNodeID s =
       (case SearchLeader w currentNodeID
               (s\<lparr>bootstrapCalls := bootstrapCalls s @ [bootstrappingServers w]\<rparr>) of
          (Inl errSearchLeader, s') \<Rightarrow>
            (Some (ErrorWrap errSearchLeader ''while bootstrapping''), s')
        | (Inr leaderID, s') \<Rightarrow>
            (map_option (\<lambda>errJoin. ErrorWrap errJoin ''while bootstrapping'')
               (ConsensusJoin w currentNodeID (MakeConsensusAddr w currentNodeID)
                  (MakeGrpcAddress w leaderID)),
             s'\<lparr>joinCalls := joinCalls s' @
                   [(currentNodeID, MakeConsensusAddr w currentNodeID,
                     MakeGrpcAddress w leaderID)]\<rparr>)) \<and>
     queries (snd (startConsensus w currentNodeID s)) = queries s + 3"
proof -
  let ?s1 = "s\<lparr>bootstrapCalls := bootstrapCalls s @ [bootstrappingServers w]\<rparr>"
  obtain r s' where sl: "SearchLeader w currentNodeID ?s1 = (r, s')"
    by (metis surj_pair)
  have q: "queries s' = queries s + 3"
    using SearchLeader_frame [of w currentNodeID ?s1] sl by simp
  have sc: "startConsensus w currentNodeID s =
      (case joinNodeToExistingConsensus w currentNodeID ?s1 of
         (Some errJoin, s2) \<Rightarrow> (Some (ErrorWrap errJoin ''while bootstrapping''), s2)
       | (None, s2) \<Rightarrow> (None, s2))"
    using assms by (simp add: startConsensus_def Let_def)
  show ?thesis
  proof (cases r)
    case (Inl errSearchLeader)
    then show ?thesis
      by (simp add: sc joinNodeToExistingConsensus_def sl q)
  next
    case (Inr leaderID)
    then show ?thesis
      by (cases "ConsensusJoin w currentNodeID (MakeConsensusAddr w currentNodeID)
                   (MakeGrpcAddress w leaderID)")
         (simp_all add: sc joinNodeToExistingConsensus_def sl q)
  qed
qed

theorem startConsensus_not_a_voter_joins_witness:
  "Contains ''node is not a voter'' ''not a voter'' \<and>
   fst (startConsensus exampleWorld ''node4'' noEffects) = None \<and>
   joinCalls (snd (startConsensus exampleWorld ''node4'' noEffects)) =
     [(''node4'', ''node4:3001'', ''node3:8001'')] \<and>
   queries (snd (startConsensus exampleWorld ''node4'' noEffects)) = 3"
proof -
  have h1: "length (GetConfiguration exampleWorld) < 2"
    by (simp add: exampleWorld_def)
  have h2: "BootstrapCluster exampleWorld (bootstrappingServers exampleWorld) =
      Some ''node is not a voter''"
    by (simp add: exampleWorld_def)
  have h3: "Contains ''node is not a voter'' ''not a voter''"
    by simp
  have sl: "fst (SearchLeader exampleWorld ''node4''
        (noEffects\<lparr>bootstrapCalls := bootstrapCalls noEffects @ [bootstrappingServers exampleWorld]\<rparr>)) =
      Inr ''node3''"
    by (simp add: SearchLeader_def SearchNodes_def numeral_3_eq_3 query_def exampleWorld_def
          noEffects_def)
  have a: "ConsensusJoin exampleWorld a b c = None"
          "MakeConsensusAddr exampleWorld ''node4'' = ''node4:3001''"
          "MakeGrpcAddress exampleWorld ''node3'' = ''node3:8001''" for a b c
    by (simp_all add: exampleWorld_def)
  have j: "joinCalls (snd (SearchLeader exampleWorld ''node4''
        (noEffects\<lparr>bootstrapCalls := bootstrapCalls noEffects @ [bootstrappingServers exampleWorld]\<rparr>))) = []"
    by (simp add: SearchLeader_frame) (simp add: noEffects_def)
  show ?thesis
    using startConsensus_not_a_voter_joins [OF h1 h2 h3, of "''node4''" noEffects] sl j
    by (auto simp: a noEffects_def split: prod.splits sum.splits)
qed

text \<open>
  C6. If the configuration read from the engine already has two servers or more,
  \<^verbatim>\<open>startConsensus\<close> returns success and has no effect at all: no
  \<^verbatim>\<open>BootstrapCluster\<close>, no query, no \<^verbatim>\<open>IsLeader\<close>, no \<^verbatim>\<open>ConsensusJoin\<close>.
\<close>

theorem startConsensus_resumes:
  "2 \<le> length (GetConfiguration w) \<Longrightarrow> startConsensus w currentNodeID s = (None, s)"
  by (simp add: startConsensus_def)

theorem startConsensus_resumes_witness:
  "2 \<le> length (GetConfiguration resumedWorld) \<and>
   startConsensus resumedWorld ''node4'' noEffects = (None, noEffects)"
proof -
  have h: "2 \<le> length (GetConfiguration resumedWorld)"
    by (simp add: resumedWorld_def)
  show ?thesis
    using h startConsensus_resumes [OF h, of "''node4''" noEffects] by simp
qed

text \<open>
  C7. The bootstrap configuration that \<^verbatim>\<open>startConsensus\<close> builds, and passes to
  \<^verbatim>\<open>BootstrapCluster\<close> whenever the engine's configuration has fewer than two
  servers, is the list of the three servers \<^verbatim>\<open>node1\<close>, \<^verbatim>\<open>node2\<close>, \<^verbatim>\<open>node3\<close>, in
  this order, each with the address \<^verbatim>\<open>MakeConsensusAddr\<close> computes from its id.
\<close>

theorem startConsensus_bootstrap_configuration:
  "bootstrappingServers w =
     [\<lparr>Suffrage = Voter, ID = ''node1'', Address = MakeConsensusAddr w ''node1''\<rparr>,
      \<lparr>Suffrage = Voter, ID = ''node2'', Address = MakeConsensusAddr w ''node2''\<rparr>,
      \<lparr>Suffrage = Voter, ID = ''node3'', Address = MakeConsensusAddr w ''node3''\<rparr>] \<and>
   (length (GetConfiguration w) < 2 \<longrightarrow>
      bootstrapCalls (snd (startConsensus w currentNodeID s)) =
        bootstrapCalls s @
          [[\<lparr>Suffrage = Voter, ID = ''node1'', Address = MakeConsensusAddr w ''node1''\<rparr>,
            \<lparr>Suffrage = Voter, ID = ''node2'', Address = MakeConsensusAddr w ''node2''\<rparr>,
            \<lparr>Suffrage = Voter, ID = ''node3'', Address = MakeConsensusAddr w ''node3''\<rparr>]])"
  using startConsensus_bootstrapCalls [of w currentNodeID s]
  by (simp only: bootstrappingServers_value) simp

theorem startConsensus_bootstrap_configuration_witness:
  "length (GetConfiguration exampleWorld) < 2 \<and>
   bootstrapCalls (snd (startConsensus exampleWorld ''node4'' noEffects)) =
     [[\<lparr>Suffrage = Voter, ID = ''node1'', Address = ''node1:3001''\<rparr>,
       \<lparr>Suffrage = Voter, ID = ''node2'', Address = ''node2:3001''\<rparr>,
       \<lparr>Suffrage = Voter, ID = ''node3'', Address = ''node3:3001''\<rparr>]]"
proof -
  have h: "length (GetConfiguration exampleWorld) < 2"
    by (simp add: exampleWorld_def)
  have a: "MakeConsensusAddr exampleWorld nodeID = nodeID @ '':3001''" for nodeID
    by (simp add: exampleWorld_def)
  have e: "bootstrapCalls noEffects = []"
    by (simp add: noEffects_def)
  show ?thesis
    using h startConsensus_bootstrap_configuration [of exampleWorld "''node4''" noEffects]
    by (simp add: a e)
qed

section \<open>Claims about packages route and fsm\<close>

text \<open>
  C9. Every payload that \<^verbatim>\<open>storeSet\<close> submits to \<^verbatim>\<open>cluster.Execute\<close> has the
  operation \<^verbatim>\<open>SET\<close>, and every payload that \<^verbatim>\<open>storeDelete\<close> submits has the
  operation \<^verbatim>\<open>DELETE\<close>: the payload submitted is the parsed one with its operation
  overwritten, so that two request bodies that differ in the operation only lead to
  the same response and the same submission.
\<close>

theorem store_operation_overwritten:
  "(\<exists>new. snd (storeSet a fiberCtx submitted) = submitted @ new \<and>
          (\<forall>payload \<in> set new. Operation payload = ''SET'')) \<and>
   (\<exists>new. snd (storeDelete a fiberCtx submitted) = submitted @ new \<and>
          (\<forall>payload \<in> set new. Operation payload = ''DELETE'')) \<and>
   (ParseAndValidate a fiberCtx = Inr parsed \<longrightarrow>
      snd (storeSet a fiberCtx submitted) = submitted @ [parsed\<lparr>Operation := ''SET''\<rparr>] \<and>
      snd (storeDelete a fiberCtx submitted) = submitted @ [parsed\<lparr>Operation := ''DELETE''\<rparr>]) \<and>
   storeSet (a\<lparr>ParseAndValidate := \<lambda>ctx. Inr (parsed\<lparr>Operation := op\<rparr>)\<rparr>) fiberCtx submitted =
     storeSet (a\<lparr>ParseAndValidate := \<lambda>ctx. Inr (parsed\<lparr>Operation := op'\<rparr>)\<rparr>) fiberCtx submitted \<and>
   storeDelete (a\<lparr>ParseAndValidate := \<lambda>ctx. Inr (parsed\<lparr>Operation := op\<rparr>)\<rparr>) fiberCtx submitted =
     storeDelete (a\<lparr>ParseAndValidate := \<lambda>ctx. Inr (parsed\<lparr>Operation := op'\<rparr>)\<rparr>) fiberCtx submitted"
proof -
  have set_new: "\<exists>new. snd (storeSet a fiberCtx submitted) = submitted @ new \<and>
          (\<forall>payload \<in> set new. Operation payload = ''SET'')"
  proof (cases "ParseAndValidate a fiberCtx")
    case (Inl errParse)
    then have "snd (storeSet a fiberCtx submitted) = submitted @ []"
      by (simp add: storeSet_def)
    then show ?thesis by fastforce
  next
    case (Inr payload)
    then have "snd (storeSet a fiberCtx submitted) = submitted @ [payload\<lparr>Operation := ''SET''\<rparr>]"
      by (simp add: storeSet_def split: option.splits)
    then show ?thesis by fastforce
  qed
  have del_new: "\<exists>new. snd (storeDelete a fiberCtx submitted) = submitted @ new \<and>
          (\<forall>payload \<in> set new. Operation payload = ''DELETE'')"
  proof (cases "ParseAndValidate a fiberCtx")
    case (Inl errParse)
    then have "snd (storeDelete a fiberCtx submitted) = submitted @ []"
      by (simp add: storeDelete_def)
    then show ?thesis by fastforce
  next
    case (Inr payload)
    then have "snd (storeDelete a fiberCtx submitted) =
        submitted @ [payload\<lparr>Operation := ''DELETE''\<rparr>]"
      by (simp add: storeDelete_def split: option.splits)
    then show ?thesis by fastforce
  qed
  have parsed: "ParseAndValidate a fiberCtx = Inr parsed \<longrightarrow>
      snd (storeSet a fiberCtx submitted) = submitted @ [parsed\<lparr>Operation := ''SET''\<rparr>] \<and>
      snd (storeDelete a fiberCtx submitted) = submitted @ [parsed\<lparr>Operation := ''DELETE''\<rparr>]"
    by (simp add: storeSet_def storeDelete_def split: option.splits)
  have set_indep:
    "storeSet (a\<lparr>ParseAndValidate := \<lambda>ctx. Inr (parsed\<lparr>Operation := op\<rparr>)\<rparr>) fiberCtx submitted =
     storeSet (a\<lparr>ParseAndValidate := \<lambda>ctx. Inr (parsed\<lparr>Operation := op'\<rparr>)\<rparr>) fiberCtx submitted"
    by (simp add: storeSet_def split: option.splits)
  have del_indep:
    "storeDelete (a\<lparr>ParseAndValidate := \<lambda>ctx. Inr (parsed\<lparr>Operation := op\<rparr>)\<rparr>) fiberCtx submitted =
     storeDelete (a\<lparr>ParseAndValidate := \<lambda>ctx. Inr (parsed\<lparr>Operation := op'\<rparr>)\<rparr>) fiberCtx submitted"
    by (simp add: storeDelete_def split: option.splits)
  from set_new del_new parsed set_indep del_indep show ?thesis by (intro conjI)
qed

theorem store_operation_overwritten_witness:
  "ParseAndValidate exampleApi \<lparr>Key = ''k'', Value = ''v'', Operation = ''DELETE''\<rparr> =
     Inr \<lparr>Key = ''k'', Value = ''v'', Operation = ''DELETE''\<rparr> \<and>
   snd (storeSet exampleApi \<lparr>Key = ''k'', Value = ''v'', Operation = ''DELETE''\<rparr> []) =
     [\<lparr>Key = ''k'', Value = ''v'', Operation = ''SET''\<rparr>] \<and>
   snd (storeDelete exampleApi \<lparr>Key = ''k'', Value = ''v'', Operation = ''SET''\<rparr> []) =
     [\<lparr>Key = ''k'', Value = ''v'', Operation = ''DELETE''\<rparr>]"
proof -
  have p: "ParseAndValidate exampleApi body = Inr body" for body
    by (simp add: exampleApi_def)
  show ?thesis
    using store_operation_overwritten
        [of exampleApi "\<lparr>Key = ''k'', Value = ''v'', Operation = ''DELETE''\<rparr>" "[]"
            "\<lparr>Key = ''k'', Value = ''v'', Operation = ''DELETE''\<rparr>"]
      store_operation_overwritten
        [of exampleApi "\<lparr>Key = ''k'', Value = ''v'', Operation = ''SET''\<rparr>" "[]"
            "\<lparr>Key = ''k'', Value = ''v'', Operation = ''SET''\<rparr>"]
    by (simp add: p)
qed




end
